theory Spec2Isabelle
  imports Main "HOL-Library.Sublist"
begin

section \<open>Query construction: \<open>SearchQuery.__init__\<close>\<close>

text \<open>
  The class constants of \<open>SearchQuery\<close> (retrieve_paper.py, lines 15 to 18).
\<close>

definition BASE_QUERY_URL :: string where
  "BASE_QUERY_URL = ''http://export.arxiv.org/api/query/?''"

definition BASE_ARXIV_URL :: string where
  "BASE_ARXIV_URL = ''http://arxiv.org/abs/''"

definition XML_ATOM_ROOT :: string where
  "XML_ATOM_ROOT = ''{http://www.w3.org/2005/Atom}''"

definition XML_OPEN_SEARCH_ROOT :: string where
  "XML_OPEN_SEARCH_ROOT = ''{http://a9.com/-/spec/opensearch/1.1/}''"

text \<open>
  Python's \<open>sep.join(items)\<close> on a list of strings.
\<close>

fun join :: "string \<Rightarrow> string list \<Rightarrow> string" where
  "join sep [] = []"
| "join sep [x] = x"
| "join sep (x # y # ys) = x @ sep @ join sep (y # ys)"

text \<open>
  Modelled from the spec: \<open>BaseQuery.__init__\<close> (src/utility/base_query.py is not among
  the sources). The spec's QuerySpec carries the four term groups and the pagination
  window; \<open>SearchQuery\<close> reads them back as \<open>self.start\<close> and \<open>self.max_result\<close>.
  The field \<open>query\<close> is the one \<open>SearchQuery.__init__\<close> itself assigns (line 49).
  The term groups are finite sequences (the defaults are tuples, the module's own call
  passes a list), iterated in order.
\<close>

record search_query =
  title_args :: "string list"
  author_args :: "string list"
  abstract_args :: "string list"
  id_args :: "string list"
  max_result :: int
  start :: int
  query :: string

text \<open>
  Line 36: the id-list fragment, empty when there are no id terms.
\<close>

definition id_args_fragment :: "string list \<Rightarrow> string" where
  "id_args_fragment ids = (if ids \<noteq> [] then ''id_list='' @ join '','' ids else '''')"

text \<open>
  Lines 34, 38 and 39: the dictionary \<open>search_codes_to_params\<close> is iterated in insertion
  order (ti, au, abs) and every term becomes the token \<open>code:term\<close>.
\<close>

definition search_codes_to_params ::
  "string list \<Rightarrow> string list \<Rightarrow> string list \<Rightarrow> (string \<times> string list) list" where
  "search_codes_to_params titles authors abstracts =
     [(''ti'', titles), (''au'', authors), (''abs'', abstracts)]"

definition formatted_params_list ::
  "string list \<Rightarrow> string list \<Rightarrow> string list \<Rightarrow> string list" where
  "formatted_params_list titles authors abstracts =
     concat (map (\<lambda>(code, params). map (\<lambda>param. code @ '':'' @ param) params)
                 (search_codes_to_params titles authors abstracts))"

text \<open>
  Line 40: the free-text fragment, empty when there is no token.
\<close>

definition formatted_params_fragment ::
  "string list \<Rightarrow> string list \<Rightarrow> string list \<Rightarrow> string" where
  "formatted_params_fragment titles authors abstracts =
     (let formatted_params = formatted_params_list titles authors abstracts
      in if formatted_params \<noteq> [] then ''search_query='' @ join ''+AND+'' formatted_params
         else '''')"

text \<open>
  Lines 42 to 48: the combination of the two fragments. The tests are Python truth
  tests on strings, so a fragment counts when it is not the empty string.
\<close>

definition combine_params :: "string \<Rightarrow> string \<Rightarrow> string" where
  "combine_params formatted_params id_args_str =
     (if formatted_params \<noteq> '''' \<and> id_args_str \<noteq> '''' then formatted_params @ id_args_str
      else if id_args_str \<noteq> '''' then id_args_str
      else if formatted_params \<noteq> '''' then formatted_params
      else '''')"

definition init_SearchQuery ::
  "string list \<Rightarrow> string list \<Rightarrow> string list \<Rightarrow> string list \<Rightarrow> int \<Rightarrow> int \<Rightarrow> search_query" where
  "init_SearchQuery titles authors abstracts ids max_res start_at =
     \<lparr> title_args = titles, author_args = authors, abstract_args = abstracts,
       id_args = ids, max_result = max_res, start = start_at,
       query = BASE_QUERY_URL @
         combine_params (formatted_params_fragment titles authors abstracts)
                        (id_args_fragment ids) \<rparr>"

section \<open>The XML envelope\<close>

text \<open>
  The exceptions the code can meet: \<open>ParseError\<close> is what
  \<open>xml.etree.ElementTree.fromstring\<close> raises on text that is not well-formed XML,
  \<open>AttributeError\<close> is what reading \<open>.text\<close>, \<open>.find\<close> or \<open>.startswith\<close> of
  \<open>None\<close> raises, \<open>TypeError\<close> and \<open>ValueError\<close> are those of \<open>int(...)\<close>, and
  \<open>RequestException\<close> stands for every exception of \<open>requests.get\<close>. The code
  catches none of them and defines no exception class of its own.
\<close>

datatype py_error = ParseError | AttributeError | TypeError | ValueError | RequestException

text \<open>
  An \<open>xml.etree.ElementTree.Element\<close>: its qualified tag (\<open>{namespace}local\<close>), its
  attribute dictionary, its \<open>.text\<close> (\<open>None\<close> when the element has no text) and its
  child elements in document order.
\<close>

datatype element =
  Element (tag: string) (attrib: "string \<rightharpoonup> string") (elem_text: "string option")
          (children: "element list")

text \<open>
  \<open>xml.etree.ElementTree.fromstring\<close> is library code: it is a parameter of the
  model, a function from the text to the root element, \<open>None\<close> standing for
  \<open>ParseError\<close>.
\<close>

type_synonym xml_parser = "string \<Rightarrow> element option"

definition get_xml_tree :: "xml_parser \<Rightarrow> string \<Rightarrow> py_error + element" where
  "get_xml_tree fromstring txt =
     (case fromstring txt of None \<Rightarrow> Inl ParseError | Some root \<Rightarrow> Inr root)"

text \<open>
  Lines 80 to 90. \<open>parent.find(path)\<close> with a qualified tag returns the first direct
  child with that tag or \<open>None\<close>; \<open>parent.findall(path)\<close> returns all of them in
  document order.
\<close>

definition get_atom_child :: "element \<Rightarrow> string \<Rightarrow> element option" where
  "get_atom_child parent t = find (\<lambda>c. tag c = XML_ATOM_ROOT @ t) (children parent)"

definition get_atom_child_text :: "element \<Rightarrow> string \<Rightarrow> py_error + string option" where
  "get_atom_child_text parent t =
     (case get_atom_child parent t of
        None \<Rightarrow> Inl AttributeError
      | Some c \<Rightarrow> Inr (elem_text c))"

definition get_atom_children :: "element \<Rightarrow> string \<Rightarrow> element list" where
  "get_atom_children parent t = filter (\<lambda>c. tag c = XML_ATOM_ROOT @ t) (children parent)"

definition get_open_search_child :: "element \<Rightarrow> string \<Rightarrow> element option" where
  "get_open_search_child parent t =
     find (\<lambda>c. tag c = XML_OPEN_SEARCH_ROOT @ t) (children parent)"

section \<open>Parsing a page: \<open>parse_valid_response\<close>\<close>

text \<open>
  Modelled from the spec: \<open>SearchResult\<close> (src/utility/search_result.py is not among
  the sources), the spec's ResultRecord: a value holding the seven keyword arguments of
  line 118 as they are passed. A field read from \<open>.text\<close> or \<open>.get\<close> may be \<open>None\<close>;
  the id is a string, since \<open>startswith\<close> has been called on it.
\<close>

record search_result =
  title :: "string option"
  arxiv_id :: string
  abstract :: "string option"
  authors :: "string option list"
  pdf_url :: "string option"
  publish :: "string option"
  result_keywords :: "string set"

text \<open>
  Lines 99 to 101: \<open>arxiv_id.startswith\<close> raises \<open>AttributeError\<close> when the id
  element has no text.
\<close>

definition normalize_id :: "string option \<Rightarrow> py_error + string" where
  "normalize_id raw =
     (case raw of
        None \<Rightarrow> Inl AttributeError
      | Some s \<Rightarrow>
          Inr (if prefix BASE_ARXIV_URL s then drop (length BASE_ARXIV_URL) s else s))"

text \<open>
  Lines 105 to 108: the published text is read first, then replaced by the text of
  \<open>updated_dates[-1]\<close> when the list of updated elements is not empty.
\<close>

definition select_date :: "string option \<Rightarrow> element list \<Rightarrow> string option" where
  "select_date published updated_dates =
     (if updated_dates \<noteq> [] then elem_text (last updated_dates) else published)"

text \<open>
  Lines 110 to 114: the loop over the link elements, left at the first link whose
  \<open>title\<close> attribute is truthy (present and not the empty string).
\<close>

definition has_title :: "element \<Rightarrow> bool" where
  "has_title link = (case attrib link ''title'' of None \<Rightarrow> False | Some t \<Rightarrow> t \<noteq> [])"

fun find_pdf_link :: "element list \<Rightarrow> string option" where
  "find_pdf_link [] = None"
| "find_pdf_link (link # links) =
     (if has_title link then attrib link ''href'' else find_pdf_link links)"

text \<open>
  Line 116: the list comprehension over the author elements; the first author
  without a name child raises.
\<close>

fun author_names :: "element list \<Rightarrow> py_error + string option list" where
  "author_names [] = Inr []"
| "author_names (author # rest) =
     (case get_atom_child author ''name'' of
        None \<Rightarrow> Inl AttributeError
      | Some n \<Rightarrow>
          (case author_names rest of
             Inl err \<Rightarrow> Inl err
           | Inr names \<Rightarrow> Inr (elem_text n # names)))"

text \<open>
  The body of the loop of lines 96 to 119, for one entry, in the order of the source.
\<close>

definition parse_entry :: "element \<Rightarrow> py_error + search_result" where
  "parse_entry entry =
     (case get_atom_child_text entry ''title'' of
        Inl err \<Rightarrow> Inl err
      | Inr ttl \<Rightarrow>
     (case get_atom_child_text entry ''id'' of
        Inl err \<Rightarrow> Inl err
      | Inr raw_id \<Rightarrow>
     (case normalize_id raw_id of
        Inl err \<Rightarrow> Inl err
      | Inr aid \<Rightarrow>
     (case get_atom_child_text entry ''summary'' of
        Inl err \<Rightarrow> Inl err
      | Inr abstr \<Rightarrow>
     (case get_atom_child_text entry ''published'' of
        Inl err \<Rightarrow> Inl err
      | Inr published \<Rightarrow>
     (let date = select_date published (get_atom_children entry ''updated'');
          pdf_link = find_pdf_link (get_atom_children entry ''link'')
      in case author_names (get_atom_children entry ''author'') of
           Inl err \<Rightarrow> Inl err
         | Inr names \<Rightarrow>
             Inr \<lparr> title = ttl, arxiv_id = aid, abstract = abstr, authors = names,
                   pdf_url = pdf_link, publish = date, result_keywords = {} \<rparr>))))))"

fun parse_entries :: "element list \<Rightarrow> py_error + search_result list" where
  "parse_entries [] = Inr []"
| "parse_entries (entry # entries) =
     (case parse_entry entry of
        Inl err \<Rightarrow> Inl err
      | Inr r \<Rightarrow>
          (case parse_entries entries of
             Inl err \<Rightarrow> Inl err
           | Inr rs \<Rightarrow> Inr (r # rs)))"

definition parse_valid_response :: "xml_parser \<Rightarrow> string \<Rightarrow> py_error + search_result list" where
  "parse_valid_response fromstring xml_response =
     (case get_xml_tree fromstring xml_response of
        Inl err \<Rightarrow> Inl err
      | Inr root \<Rightarrow> parse_entries (get_atom_children root ''entry''))"

text \<open>
  Lines 122 to 125: \<open>parse_error\<close> returns the text of the summary of the first entry.
\<close>

definition parse_error :: "xml_parser \<Rightarrow> string \<Rightarrow> py_error + string option" where
  "parse_error fromstring error_msg =
     (case fromstring error_msg of
        None \<Rightarrow> Inl ParseError
      | Some root \<Rightarrow>
          (case get_atom_child root ''entry'' of
             None \<Rightarrow> Inl AttributeError
           | Some entry \<Rightarrow>
               (case get_atom_child entry ''summary'' of
                  None \<Rightarrow> Inl AttributeError
                | Some s \<Rightarrow> Inr (elem_text s))))"

section \<open>Paginated retrieval\<close>

text \<open>
  What the code reads of a \<open>requests.Response\<close>: \<open>.ok\<close> and \<open>.text\<close>.
\<close>

record response =
  ok :: bool
  resp_text :: string

text \<open>
  \<open>requests.get\<close> is library code and the service is outside the program: the
  transport is a parameter, a function of the number of requests issued before this one
  and of the URL, so that the service may answer the same URL differently over time.
  \<open>Inl\<close> is an exception raised by \<open>requests.get\<close>.
\<close>

type_synonym transport = "nat \<Rightarrow> string \<Rightarrow> py_error + response"

text \<open>
  Python's \<open>int(s)\<close> on a string is the language's own parser of integer literals;
  it is a parameter too, \<open>None\<close> standing for \<open>ValueError\<close>.
\<close>

type_synonym int_parser = "string \<Rightarrow> int option"

text \<open>
  The mutable state a method can reach: the \<open>SearchQuery\<close> object itself and the
  service, seen as the sequence of the URLs requested so far.
\<close>

record world =
  self_obj :: search_query
  requests :: "string list"

text \<open>
  The decimal text of an integer, as the f-string of line 52 formats it.
\<close>

definition digit_char :: "nat \<Rightarrow> char" where
  "digit_char d = ''0123456789'' ! d"

fun str_nat :: "nat \<Rightarrow> string" where
  "str_nat n = (if n < 10 then [digit_char n] else str_nat (n div 10) @ [digit_char (n mod 10)])"

definition str_int :: "int \<Rightarrow> string" where
  "str_int i = (if i < 0 then CHR ''-'' # str_nat (nat (- i)) else str_nat (nat i))"

text \<open>
  Lines 51 and 52: the URL of one bounded request, and the request itself.
\<close>

definition limited_url :: "search_query \<Rightarrow> int \<Rightarrow> int \<Rightarrow> string" where
  "limited_url self start_at space =
     query self @ ''&start='' @ str_int start_at @ ''&max_result='' @ str_int space"

definition get_response_with_limited_query ::
  "transport \<Rightarrow> int \<Rightarrow> int \<Rightarrow> world \<Rightarrow> (py_error + response) \<times> world" where
  "get_response_with_limited_query http start_at space w =
     (let url = limited_url (self_obj w) start_at space
      in (http (length (requests w)) url, w\<lparr>requests := requests w @ [url]\<rparr>))"

text \<open>
  Lines 54 and 55.
\<close>

definition get_response_with_starting_query ::
  "transport \<Rightarrow> world \<Rightarrow> (py_error + response) \<times> world" where
  "get_response_with_starting_query http w =
     get_response_with_limited_query http (start (self_obj w)) (max_result (self_obj w)) w"

text \<open>
  The generator object of \<open>retrieve_valid_search_results\<close> (lines 68 to 78). Calling
  the method only creates it; each \<open>next\<close> runs the body up to the next \<open>yield\<close>.
  \<open>Created start space end\<close> has not run yet, \<open>Suspended start space end count\<close>
  rests at the \<open>yield\<close> of line 74 with these values of the local variables, and
  \<open>Finished\<close> has left the loop or raised.
\<close>

datatype generator = Created int int int | Suspended int int int nat | Finished

datatype 'a pull = Yield 'a | StopIteration | Raise py_error

type_synonym page_batch = "(nat \<times> search_result) list"

text \<open>
  Lines 72 to 74: one request at the cursor, the parse of its text, and the batch
  \<open>list(enumerate(search_results))\<close>.
\<close>

definition fetch_page ::
  "transport \<Rightarrow> xml_parser \<Rightarrow> int \<Rightarrow> int \<Rightarrow> int \<Rightarrow> nat \<Rightarrow> world
     \<Rightarrow> (page_batch pull \<times> generator) \<times> world" where
  "fetch_page http fromstring start_at space end_at count w =
     (case get_response_with_limited_query http start_at space w of
        (Inl err, w') \<Rightarrow> ((Raise err, Finished), w')
      | (Inr resp, w') \<Rightarrow>
          (case parse_valid_response fromstring (resp_text resp) of
             Inl err \<Rightarrow> ((Raise err, Finished), w')
           | Inr search_results \<Rightarrow>
               ((Yield (List.enumerate 0 search_results),
                 Suspended start_at space end_at (count + length search_results)), w')))"

text \<open>
  One \<open>next\<close> on the generator. Resuming after the \<open>yield\<close> runs lines 76 to 78
  (\<open>start += space\<close>, then the test \<open>start > end\<close>) before the next request.
\<close>

fun next_batch ::
  "transport \<Rightarrow> xml_parser \<Rightarrow> generator \<Rightarrow> world \<Rightarrow> (page_batch pull \<times> generator) \<times> world" where
  "next_batch http fromstring (Created start_at space end_at) w =
     fetch_page http fromstring start_at space end_at 0 w"
| "next_batch http fromstring (Suspended start_at space end_at count) w =
     (let start_at' = start_at + space
      in if start_at' > end_at then ((StopIteration, Finished), w)
         else fetch_page http fromstring start_at' space end_at count w)"
| "next_batch http fromstring Finished w = ((StopIteration, Finished), w)"

text \<open>
  Line 64: \<open>int\<close> of the text of the \<open>totalResults\<close> element; \<open>int(None)\<close> raises
  \<open>TypeError\<close>.
\<close>

definition total_results_of :: "int_parser \<Rightarrow> element option \<Rightarrow> py_error + int" where
  "total_results_of py_int child =
     (case child of
        None \<Rightarrow> Inl AttributeError
      | Some el \<Rightarrow>
          (case elem_text el of
             None \<Rightarrow> Inl TypeError
           | Some s \<Rightarrow> (case py_int s of None \<Rightarrow> Inl ValueError | Some n \<Rightarrow> Inr n)))"

text \<open>
  Lines 60 to 66: \<open>retrieve_search_results\<close> returns either the generator of the pages
  or what \<open>parse_error\<close> returns.
\<close>

datatype retrieval = Generator generator | Message "string option"

definition retrieve_search_results ::
  "transport \<Rightarrow> xml_parser \<Rightarrow> int_parser \<Rightarrow> world \<Rightarrow> (py_error + retrieval) \<times> world" where
  "retrieve_search_results http fromstring py_int w =
     (case get_response_with_starting_query http w of
        (Inl err, w') \<Rightarrow> (Inl err, w')
      | (Inr resp, w') \<Rightarrow>
          (if ok resp then
             (case get_xml_tree fromstring (resp_text resp) of
                Inl err \<Rightarrow> (Inl err, w')
              | Inr root \<Rightarrow>
                  (case total_results_of py_int (get_open_search_child root ''totalResults'') of
                     Inl err \<Rightarrow> (Inl err, w')
                   | Inr total_results \<Rightarrow>
                       (Inr (Generator (Created (start (self_obj w')) (max_result (self_obj w'))
                                                total_results)), w')))
           else
             (case parse_error fromstring (resp_text resp) of
                Inl err \<Rightarrow> (Inl err, w')
              | Inr msg \<Rightarrow> (Inr (Message msg), w'))))"

text \<open>
  The consumer \<open>list(results)\<close> of line 135, with fuel: it pulls until the generator
  stops or raises, at most \<open>fuel\<close> times. \<open>Pending\<close> is the generator left when the
  fuel ran out.
\<close>

datatype ending = Exhausted | Failed py_error | Pending generator

fun consume ::
  "nat \<Rightarrow> transport \<Rightarrow> xml_parser \<Rightarrow> generator \<Rightarrow> world \<Rightarrow> (page_batch list \<times> ending) \<times> world" where
  "consume 0 http fromstring g w = (([], Pending g), w)"
| "consume (Suc fuel) http fromstring g w =
     (case next_batch http fromstring g w of
        ((Yield batch, g'), w') \<Rightarrow>
          (case consume fuel http fromstring g' w' of
             ((batches, e), w'') \<Rightarrow> ((batch # batches, e), w''))
      | ((StopIteration, g'), w') \<Rightarrow> (([], Exhausted), w')
      | ((Raise err, g'), w') \<Rightarrow> (([], Failed err), w'))"

section \<open>Sample documents\<close>

text \<open>
  Four service answers used by the closed instances of the theorems below, each with the
  element tree \<open>xml.etree.ElementTree.fromstring\<close> builds for it: a result page (one
  entry, total count 25), an error envelope, a well-formed page whose entry has no
  title element, and a truncated page.
\<close>

definition sample_feed :: string where
  "sample_feed =
     ''<feed xmlns=\"http://www.w3.org/2005/Atom\" xmlns:o=\"http://a9.com/-/spec/opensearch/1.1/\">'' @
     ''<o:totalResults>25</o:totalResults><entry><id>http://arxiv.org/abs/1707.01495v3</id>'' @
     ''<updated>2018-02-23</updated><published>2017-07-05</published><title>Replay</title>'' @
     ''<summary>Sparse rewards.</summary><author><name>M. A.</name></author>'' @
     ''<link href=\"http://arxiv.org/abs/1707.01495v3\"/>'' @
     ''<link title=\"pdf\" href=\"http://arxiv.org/pdf/1707.01495v3\"/></entry></feed>''"

definition sample_entry :: element where
  "sample_entry =
     Element ''{http://www.w3.org/2005/Atom}entry'' Map.empty None
       [Element ''{http://www.w3.org/2005/Atom}id'' Map.empty
          (Some ''http://arxiv.org/abs/1707.01495v3'') [],
        Element ''{http://www.w3.org/2005/Atom}updated'' Map.empty (Some ''2018-02-23'') [],
        Element ''{http://www.w3.org/2005/Atom}published'' Map.empty (Some ''2017-07-05'') [],
        Element ''{http://www.w3.org/2005/Atom}title'' Map.empty (Some ''Replay'') [],
        Element ''{http://www.w3.org/2005/Atom}summary'' Map.empty (Some ''Sparse rewards.'') [],
        Element ''{http://www.w3.org/2005/Atom}author'' Map.empty None
          [Element ''{http://www.w3.org/2005/Atom}name'' Map.empty (Some ''M. A.'') []],
        Element ''{http://www.w3.org/2005/Atom}link''
          [''href'' \<mapsto> ''http://arxiv.org/abs/1707.01495v3''] None [],
        Element ''{http://www.w3.org/2005/Atom}link''
          [''title'' \<mapsto> ''pdf'', ''href'' \<mapsto> ''http://arxiv.org/pdf/1707.01495v3''] None []]"

definition sample_feed_tree :: element where
  "sample_feed_tree =
     Element ''{http://www.w3.org/2005/Atom}feed'' Map.empty None
       [Element ''{http://a9.com/-/spec/opensearch/1.1/}totalResults'' Map.empty (Some ''25'') [],
        sample_entry]"

definition sample_result :: search_result where
  "sample_result =
     \<lparr> title = Some ''Replay'', arxiv_id = ''1707.01495v3'',
       abstract = Some ''Sparse rewards.'', authors = [Some ''M. A.''],
       pdf_url = Some ''http://arxiv.org/pdf/1707.01495v3'', publish = Some ''2018-02-23'',
       result_keywords = {} \<rparr>"

definition sample_error :: string where
  "sample_error =
     ''<feed xmlns=\"http://www.w3.org/2005/Atom\"><entry><id>http://arxiv.org/api/errors</id>'' @
     ''<title>Error</title><summary>Invalid id list</summary></entry></feed>''"

definition sample_error_tree :: element where
  "sample_error_tree =
     Element ''{http://www.w3.org/2005/Atom}feed'' Map.empty None
       [Element ''{http://www.w3.org/2005/Atom}entry'' Map.empty None
          [Element ''{http://www.w3.org/2005/Atom}id'' Map.empty
             (Some ''http://arxiv.org/api/errors'') [],
           Element ''{http://www.w3.org/2005/Atom}title'' Map.empty (Some ''Error'') [],
           Element ''{http://www.w3.org/2005/Atom}summary'' Map.empty
             (Some ''Invalid id list'') []]]"

definition sample_untitled :: string where
  "sample_untitled =
     ''<feed xmlns=\"http://www.w3.org/2005/Atom\"><entry><id>1707.01495v3</id>'' @
     ''<published>2017-07-05</published><summary>Sparse rewards.</summary></entry></feed>''"

definition sample_untitled_tree :: element where
  "sample_untitled_tree =
     Element ''{http://www.w3.org/2005/Atom}feed'' Map.empty None
       [Element ''{http://www.w3.org/2005/Atom}entry'' Map.empty None
          [Element ''{http://www.w3.org/2005/Atom}id'' Map.empty (Some ''1707.01495v3'') [],
           Element ''{http://www.w3.org/2005/Atom}published'' Map.empty (Some ''2017-07-05'') [],
           Element ''{http://www.w3.org/2005/Atom}summary'' Map.empty
             (Some ''Sparse rewards.'') []]]"

definition sample_truncated :: string where
  "sample_truncated =
     ''<feed xmlns=\"http://www.w3.org/2005/Atom\"><entry><id>1707.01495v3</id>''"

text \<open>
  The library parser on the sample documents. The closed instances apply it to these
  four texts only; the last line stands for \<open>ParseError\<close> on the truncated one.
\<close>

definition sample_fromstring :: xml_parser where
  "sample_fromstring txt =
     (if txt = sample_feed then Some sample_feed_tree
      else if txt = sample_error then Some sample_error_tree
      else if txt = sample_untitled then Some sample_untitled_tree
      else None)"

text \<open>
  Python's \<open>int\<close> on the one numeral the sample documents contain.
\<close>

definition sample_int :: int_parser where
  "sample_int s = (if s = ''25'' then Some 25 else None)"

text \<open>
  A service that answers every request with the sample page, one that answers with the
  error envelope and an error status, and a query for the title term \<open>replay\<close> with the
  default window.
\<close>

definition sample_service :: transport where
  "sample_service n url = Inr \<lparr> ok = True, resp_text = sample_feed \<rparr>"

definition sample_failing_service :: transport where
  "sample_failing_service n url = Inr \<lparr> ok = False, resp_text = sample_error \<rparr>"

definition sample_world :: world where
  "sample_world =
     \<lparr> self_obj = init_SearchQuery [''replay''] [] [] [] 10 0, requests = [] \<rparr>"

text \<open>
  The entries on which the loop body raises nothing: the four elements read with
  \<open>get_atom_child_text\<close> are present, the id has a text, and every author has a name.
\<close>

definition entry_complete :: "element \<Rightarrow> bool" where
  "entry_complete entry =
     (get_atom_child entry ''title'' \<noteq> None \<and>
      (case get_atom_child entry ''id'' of None \<Rightarrow> False | Some c \<Rightarrow> elem_text c \<noteq> None) \<and>
      get_atom_child entry ''summary'' \<noteq> None \<and>
      get_atom_child entry ''published'' \<noteq> None \<and>
      list_all (\<lambda>author. get_atom_child author ''name'' \<noteq> None)
               (get_atom_children entry ''author''))"

section \<open>Properties of the parser\<close>

lemma author_names_cases:
  "author_names as = (if list_all (\<lambda>a. get_atom_child a ''name'' \<noteq> None) as
      then Inr (map (\<lambda>a. elem_text (the (get_atom_child a ''name''))) as)
      else Inl AttributeError)"
  by (induction as) (auto split: option.splits sum.splits)

lemma parse_entry_Inr:
  assumes "parse_entry entry = Inr r"
  shows "\<exists>t c s a p names.
           get_atom_child entry ''title'' = Some t \<and>
           get_atom_child entry ''id'' = Some c \<and> elem_text c = Some s \<and>
           get_atom_child entry ''summary'' = Some a \<and>
           get_atom_child entry ''published'' = Some p \<and>
           author_names (get_atom_children entry ''author'') = Inr names \<and>
           r = \<lparr> title = elem_text t,
                 arxiv_id = (if prefix BASE_ARXIV_URL s then drop (length BASE_ARXIV_URL) s else s),
                 abstract = elem_text a, authors = names,
                 pdf_url = find_pdf_link (get_atom_children entry ''link''),
                 publish = select_date (elem_text p) (get_atom_children entry ''updated''),
                 result_keywords = {} \<rparr>"
  using assms
  by (auto simp add: parse_entry_def get_atom_child_text_def normalize_id_def Let_def
      split: option.splits sum.splits)

lemma parse_entry_cases:
  "parse_entry entry = Inl AttributeError \<and> \<not> entry_complete entry
   \<or> (\<exists>r. parse_entry entry = Inr r) \<and> entry_complete entry"
  by (auto simp add: parse_entry_def get_atom_child_text_def normalize_id_def Let_def
      entry_complete_def author_names_cases split: option.splits sum.splits)

lemma parse_entries_cases:
  "parse_entries es =  Inl AttributeError \<and> \<not> list_all entry_complete es
   \<or> (\<exists>rs. parse_entries es = Inr rs) \<and> list_all entry_complete es"
proof (induction es)
  case Nil
  then show ?case by simp
next
  case (Cons e es)
  then show ?case using parse_entry_cases [of e]
    by (auto split: sum.splits)
qed

lemma parse_entries_nth:
  "parse_entries es = Inr rs \<Longrightarrow>
     length rs = length es \<and> (\<forall>i<length es. parse_entry (es ! i) = Inr (rs ! i))"
proof (induction es arbitrary: rs)
  case Nil
  then show ?case by simp
next
  case (Cons e es)
  then obtain r rs' where r: "parse_entry e = Inr r" and rs': "parse_entries es = Inr rs'"
    and eq: "rs = r # rs'"
    by (auto split: sum.splits)
  from Cons.IH [OF rs'] have len: "length rs' = length es"
    and nth: "\<forall>i<length es. parse_entry (es ! i) = Inr (rs' ! i)" by simp_all
  show ?case using r eq len nth by (auto simp add: nth_Cons split: nat.splits)
qed

lemma parse_valid_response_nth:
  assumes "parse_valid_response fromstring body = Inr rs" and "fromstring body = Some root"
    and "i < length rs"
  shows "parse_entry (get_atom_children root ''entry'' ! i) = Inr (rs ! i)"
  using assms parse_entries_nth [of "get_atom_children root ''entry''" rs]
  by (simp add: parse_valid_response_def get_xml_tree_def)

lemma find_pdf_link_find:
  "find_pdf_link links =
     (case find has_title links of None \<Rightarrow> None | Some link \<Rightarrow> attrib link ''href'')"
  by (induction links) simp_all

lemma sample_docs_distinct:
  "sample_error \<noteq> sample_feed" "sample_untitled \<noteq> sample_feed" "sample_untitled \<noteq> sample_error"
  "sample_truncated \<noteq> sample_feed" "sample_truncated \<noteq> sample_error"
  "sample_truncated \<noteq> sample_untitled"
  by (simp_all add: sample_feed_def sample_error_def sample_untitled_def sample_truncated_def)

lemma sample_fromstring_simps:
  "sample_fromstring sample_feed = Some sample_feed_tree"
  "sample_fromstring sample_error = Some sample_error_tree"
  "sample_fromstring sample_untitled = Some sample_untitled_tree"
  "sample_fromstring sample_truncated = None"
  by (simp_all add: sample_fromstring_def sample_docs_distinct)

lemma parse_sample_entry: "parse_entry sample_entry = Inr sample_result"
  by (simp add: parse_entry_def sample_entry_def sample_result_def get_atom_child_text_def
      get_atom_child_def get_atom_children_def normalize_id_def select_date_def has_title_def
      XML_ATOM_ROOT_def BASE_ARXIV_URL_def)

lemma parse_sample_feed:
  "parse_valid_response sample_fromstring sample_feed = Inr [sample_result]"
  by (simp add: parse_valid_response_def get_xml_tree_def sample_fromstring_simps
      sample_feed_tree_def get_atom_children_def parse_sample_entry)
    (simp add: sample_entry_def XML_ATOM_ROOT_def)

lemma author_names_list_all2:
  "author_names as = Inr names \<Longrightarrow>
     list_all2 (\<lambda>author name. \<exists>n. get_atom_child author ''name'' = Some n \<and> name = elem_text n)
       as names"
  by (induction as arbitrary: names) (auto split: option.splits sum.splits)

lemma has_title_eq:
  "has_title = (\<lambda>link. \<exists>ti. attrib link ''title'' = Some ti \<and> ti \<noteq> '''')"
  by (auto simp add: has_title_def fun_eq_iff split: option.splits)

text \<open>
  Claim C2 (as amended). A body the XML library cannot parse makes
  \<open>parse_valid_response\<close> fail with the library's \<open>ParseError\<close>. A well-formed body is
  parsed into one record per entry exactly when every entry has a title, an id with text,
  a summary and a published element and every author has a name element. Every field of
  each record is then what the entry holds: the texts of title and summary, absent when the
  element is empty; the id text without the known prefix; the text of each author's name in
  document order, absent when empty; the href of the first titled link, absent when there is
  no such link; the text of the last updated element, or of the published element when there
  is none, absent when empty; and no keywords. Otherwise the parse fails with
  \<open>AttributeError\<close>.
\<close>

theorem parse_failures_classified:
  "(fromstring body = None \<longrightarrow> parse_valid_response fromstring body = Inl ParseError) \<and>
   (\<forall>root. fromstring body = Some root \<longrightarrow>
      (if list_all entry_complete (get_atom_children root ''entry'')
       then \<exists>rs. parse_valid_response fromstring body = Inr rs \<and>
                 length rs = length (get_atom_children root ''entry'') \<and>
                 (\<forall>i<length rs.
                    let entry = get_atom_children root ''entry'' ! i;
                        updated = get_atom_children entry ''updated'';
                        links = get_atom_children entry ''link''
                    in \<exists>t c s a p.
                         get_atom_child entry ''title'' = Some t \<and>
                         get_atom_child entry ''id'' = Some c \<and> elem_text c = Some s \<and>
                         get_atom_child entry ''summary'' = Some a \<and>
                         get_atom_child entry ''published'' = Some p \<and>
                         title (rs ! i) = elem_text t \<and>
                         arxiv_id (rs ! i) =
                           (if prefix ''http://arxiv.org/abs/'' s
                            then drop (length ''http://arxiv.org/abs/'') s else s) \<and>
                         abstract (rs ! i) = elem_text a \<and>
                         list_all2
                           (\<lambda>author name. \<exists>n. get_atom_child author ''name'' = Some n \<and>
                                                name = elem_text n)
                           (get_atom_children entry ''author'') (authors (rs ! i)) \<and>
                         pdf_url (rs ! i) =
                           (case find (\<lambda>link. \<exists>ti. attrib link ''title'' = Some ti \<and> ti \<noteq> '''')
                                      links of
                              None \<Rightarrow> None
                            | Some link \<Rightarrow> attrib link ''href'') \<and>
                         publish (rs ! i) =
                           (if updated \<noteq> [] then elem_text (last updated) else elem_text p) \<and>
                         result_keywords (rs ! i) = {})
       else parse_valid_response fromstring body = Inl AttributeError))"
proof (intro conjI allI impI)
  assume "fromstring body = None"
  then show "parse_valid_response fromstring body = Inl ParseError"
    by (simp add: parse_valid_response_def get_xml_tree_def)
next
  fix root
  assume root: "fromstring body = Some root"
  let ?es = "get_atom_children root ''entry''"
  let ?fields = "\<lambda>rs i.
     let entry = ?es ! i;
         updated = get_atom_children entry ''updated'';
         links = get_atom_children entry ''link''
     in \<exists>t c s a p.
          get_atom_child entry ''title'' = Some t \<and>
          get_atom_child entry ''id'' = Some c \<and> elem_text c = Some s \<and>
          get_atom_child entry ''summary'' = Some a \<and>
          get_atom_child entry ''published'' = Some p \<and>
          title (rs ! i) = elem_text t \<and>
          arxiv_id (rs ! i) =
            (if prefix ''http://arxiv.org/abs/'' s
             then drop (length ''http://arxiv.org/abs/'') s else s) \<and>
          abstract (rs ! i) = elem_text a \<and>
          list_all2
            (\<lambda>author name. \<exists>n. get_atom_child author ''name'' = Some n \<and> name = elem_text n)
            (get_atom_children entry ''author'') (authors (rs ! i)) \<and>
          pdf_url (rs ! i) =
            (case find (\<lambda>link. \<exists>ti. attrib link ''title'' = Some ti \<and> ti \<noteq> '''') links of
               None \<Rightarrow> None
             | Some link \<Rightarrow> attrib link ''href'') \<and>
          publish (rs ! i) =
            (if updated \<noteq> [] then elem_text (last updated) else elem_text p) \<and>
          result_keywords (rs ! i) = {}"
  have pv: "parse_valid_response fromstring body = parse_entries ?es"
    using root by (simp add: parse_valid_response_def get_xml_tree_def)
  show "if list_all entry_complete ?es
       then \<exists>rs. parse_valid_response fromstring body = Inr rs \<and>
                 length rs = length ?es \<and> (\<forall>i<length rs. ?fields rs i)
       else parse_valid_response fromstring body = Inl AttributeError"
  proof (cases "list_all entry_complete ?es")
    case True
    then obtain rs where rs: "parse_entries ?es = Inr rs"
      using parse_entries_cases [of ?es] by auto
    from parse_entries_nth [OF rs] have len: "length rs = length ?es"
      and nth: "\<forall>i<length ?es. parse_entry (?es ! i) = Inr (rs ! i)"
      by simp_all
    have "?fields rs i" if "i < length rs" for i
    proof -
      from that nth len have "parse_entry (?es ! i) = Inr (rs ! i)"
        by simp
      from parse_entry_Inr [OF this] obtain t c s a p names where
        kids: "get_atom_child (?es ! i) ''title'' = Some t"
          "get_atom_child (?es ! i) ''id'' = Some c" "elem_text c = Some s"
          "get_atom_child (?es ! i) ''summary'' = Some a"
          "get_atom_child (?es ! i) ''published'' = Some p"
        and names: "author_names (get_atom_children (?es ! i) ''author'') = Inr names"
        and r: "rs ! i =
           \<lparr> title = elem_text t,
             arxiv_id = (if prefix BASE_ARXIV_URL s then drop (length BASE_ARXIV_URL) s else s),
             abstract = elem_text a, authors = names,
             pdf_url = find_pdf_link (get_atom_children (?es ! i) ''link''),
             publish = select_date (elem_text p) (get_atom_children (?es ! i) ''updated''),
             result_keywords = {} \<rparr>"
        by blast
      have au: "list_all2
          (\<lambda>author name. \<exists>n. get_atom_child author ''name'' = Some n \<and> name = elem_text n)
          (get_atom_children (?es ! i) ''author'') (authors (rs ! i))"
        using author_names_list_all2 [OF names] r by simp
      have pdf: "pdf_url (rs ! i) =
          (case find (\<lambda>link. \<exists>ti. attrib link ''title'' = Some ti \<and> ti \<noteq> '''')
                     (get_atom_children (?es ! i) ''link'') of
             None \<Rightarrow> None
           | Some link \<Rightarrow> attrib link ''href'')"
        using r by (simp add: find_pdf_link_find has_title_eq)
      have rest: "title (rs ! i) = elem_text t" "abstract (rs ! i) = elem_text a"
        "arxiv_id (rs ! i) =
           (if prefix ''http://arxiv.org/abs/'' s
            then drop (length ''http://arxiv.org/abs/'') s else s)"
        "publish (rs ! i) =
           (if get_atom_children (?es ! i) ''updated'' \<noteq> []
            then elem_text (last (get_atom_children (?es ! i) ''updated'')) else elem_text p)"
        "result_keywords (rs ! i) = {}"
        using r by (simp_all add: BASE_ARXIV_URL_def select_date_def)
      show ?thesis
        unfolding Let_def using kids au pdf rest by blast
    qed
    then show ?thesis
      using True rs len pv by simp
  next
    case False
    then show ?thesis
      using parse_entries_cases [of ?es] pv by auto
  qed
qed

theorem parse_failures_classified_witness:
  "parse_valid_response sample_fromstring sample_truncated = Inl ParseError \<and>
   (\<exists>rs. parse_valid_response sample_fromstring sample_feed = Inr rs \<and> length rs = 1 \<and>
         authors (rs ! 0) = [Some ''M. A.''] \<and> publish (rs ! 0) = Some ''2018-02-23'' \<and>
         pdf_url (rs ! 0) = Some ''http://arxiv.org/pdf/1707.01495v3'')"
proof -
  have complete: "list_all entry_complete (get_atom_children sample_feed_tree ''entry'')"
    by (simp add: sample_feed_tree_def sample_entry_def get_atom_children_def
        get_atom_child_def entry_complete_def XML_ATOM_ROOT_def)
  have es: "get_atom_children sample_feed_tree ''entry'' = [sample_entry]"
    by (simp add: sample_feed_tree_def sample_entry_def get_atom_children_def XML_ATOM_ROOT_def)
  have trunc: "parse_valid_response sample_fromstring sample_truncated = Inl ParseError"
    using parse_failures_classified [of sample_fromstring sample_truncated]
    by (simp add: sample_fromstring_simps)
  from parse_failures_classified [of sample_fromstring sample_feed] complete
  obtain rs where rs: "parse_valid_response sample_fromstring sample_feed = Inr rs"
    and len: "length rs = 1"
    by (auto simp add: sample_fromstring_simps es)
  from rs have "rs = [sample_result]"
    by (simp add: parse_sample_feed)
  then have "authors (rs ! 0) = [Some ''M. A.'']" "publish (rs ! 0) = Some ''2018-02-23''"
    "pdf_url (rs ! 0) = Some ''http://arxiv.org/pdf/1707.01495v3''"
    by (simp_all add: sample_result_def)
  then show ?thesis
    using trunc rs len by blast
qed

text \<open>
  The claim as stated fails on a well-formed page whose only entry has no title element:
  the parse raises \<open>AttributeError\<close> instead of passing on an absent title.
\<close>

theorem untitled_entry_raises:
  "sample_fromstring sample_untitled = Some sample_untitled_tree \<and>
   parse_valid_response sample_fromstring sample_untitled = Inl AttributeError"
  by (simp add: sample_fromstring_simps parse_valid_response_def get_xml_tree_def
      sample_untitled_tree_def get_atom_children_def parse_entry_def get_atom_child_text_def
      get_atom_child_def XML_ATOM_ROOT_def)

text \<open>
  Claim C4. For every record of a parsed page, the date is the text of the last
  \<open>updated\<close> element of its entry when there is one (so the text of the only one when
  there is exactly one), and the text of the \<open>published\<close> element when there is none.
\<close>

theorem published_or_updated_date:
  assumes "parse_valid_response fromstring body = Inr rs" and "fromstring body = Some root"
    and "i < length rs"
  shows "let entry = get_atom_children root ''entry'' ! i;
             updated = get_atom_children entry ''updated''
         in (updated \<noteq> [] \<longrightarrow> publish (rs ! i) = elem_text (last updated)) \<and>
            (\<forall>u. updated = [u] \<longrightarrow> publish (rs ! i) = elem_text u) \<and>
            (updated = [] \<longrightarrow>
               (\<exists>p. get_atom_child entry ''published'' = Some p \<and>
                    publish (rs ! i) = elem_text p))"
proof -
  from parse_entry_Inr [OF parse_valid_response_nth [OF assms]]
  show ?thesis by (auto simp add: Let_def select_date_def)
qed

theorem published_or_updated_date_witness:
  "parse_valid_response sample_fromstring sample_feed = Inr [sample_result] \<and>
   publish ([sample_result] ! 0) = Some ''2018-02-23''"
proof -
  have u: "get_atom_children (get_atom_children sample_feed_tree ''entry'' ! 0) ''updated'' =
      [Element ''{http://www.w3.org/2005/Atom}updated'' Map.empty (Some ''2018-02-23'') []]"
    by (simp add: sample_feed_tree_def sample_entry_def get_atom_children_def XML_ATOM_ROOT_def)
  show ?thesis
    using published_or_updated_date [OF parse_sample_feed sample_fromstring_simps(1), of 0] u
    by (simp add: parse_sample_feed Let_def)
qed

text \<open>
  Claim C5. For every record of a parsed page, the PDF URL is the \<open>href\<close>
  attribute of the first link of its entry, in document order, whose \<open>title\<close> attribute
  is present and not empty, and is absent when there is no such link; with two links of
  which only the second has such a title, it is the \<open>href\<close> of the second.
\<close>

theorem pdf_url_first_titled_link:
  assumes "parse_valid_response fromstring body = Inr rs" and "fromstring body = Some root"
    and "i < length rs"
  shows "let links = get_atom_children (get_atom_children root ''entry'' ! i) ''link''
         in pdf_url (rs ! i) =
              (case find (\<lambda>link. \<exists>t. attrib link ''title'' = Some t \<and> t \<noteq> '''') links of
                 None \<Rightarrow> None
               | Some link \<Rightarrow> attrib link ''href'') \<and>
            (\<forall>l1 l2. links = [l1, l2] \<and> attrib l1 ''title'' \<in> {None, Some ''''} \<and>
                      (\<exists>t. attrib l2 ''title'' = Some t \<and> t \<noteq> '''')
                \<longrightarrow> pdf_url (rs ! i) = attrib l2 ''href'')"
proof -
  have ht: "has_title = (\<lambda>link. \<exists>t. attrib link ''title'' = Some t \<and> t \<noteq> '''')"
    by (auto simp add: has_title_def fun_eq_iff split: option.splits)
  from parse_entry_Inr [OF parse_valid_response_nth [OF assms]]
  have "pdf_url (rs ! i) =
      find_pdf_link (get_atom_children (get_atom_children root ''entry'' ! i) ''link'')"
    by auto
  then show ?thesis
    unfolding find_pdf_link_find ht by (auto simp add: Let_def)
qed

theorem pdf_url_first_titled_link_witness:
  "parse_valid_response sample_fromstring sample_feed = Inr [sample_result] \<and>
   pdf_url ([sample_result] ! 0) = Some ''http://arxiv.org/pdf/1707.01495v3''"
proof -
  have l: "get_atom_children (get_atom_children sample_feed_tree ''entry'' ! 0) ''link'' =
      [Element ''{http://www.w3.org/2005/Atom}link''
          [''href'' \<mapsto> ''http://arxiv.org/abs/1707.01495v3''] None [],
       Element ''{http://www.w3.org/2005/Atom}link''
          [''title'' \<mapsto> ''pdf'', ''href'' \<mapsto> ''http://arxiv.org/pdf/1707.01495v3''] None []]"
    by (simp add: sample_feed_tree_def sample_entry_def get_atom_children_def XML_ATOM_ROOT_def)
  show ?thesis
    using pdf_url_first_titled_link [OF parse_sample_feed sample_fromstring_simps(1), of 0] l
    by (simp add: parse_sample_feed Let_def)
qed

text \<open>
  Claim C8. For every record of a parsed page, when the text of the id element
  starts with \<open>http://arxiv.org/abs/\<close> the id of the record is the rest of that text, and
  otherwise it is the text unchanged.
\<close>

theorem external_id_prefix_stripped:
  assumes "parse_valid_response fromstring body = Inr rs" and "fromstring body = Some root"
    and "i < length rs"
  shows "\<exists>c s. get_atom_child (get_atom_children root ''entry'' ! i) ''id'' = Some c \<and>
               elem_text c = Some s \<and>
               (\<forall>rest. s = ''http://arxiv.org/abs/'' @ rest \<longrightarrow> arxiv_id (rs ! i) = rest) \<and>
               (\<not> prefix ''http://arxiv.org/abs/'' s \<longrightarrow> arxiv_id (rs ! i) = s)"
proof -
  from parse_entry_Inr [OF parse_valid_response_nth [OF assms]]
  show ?thesis by (auto simp add: BASE_ARXIV_URL_def)
qed

theorem external_id_prefix_stripped_witness:
  "parse_valid_response sample_fromstring sample_feed = Inr [sample_result] \<and>
   arxiv_id ([sample_result] ! 0) = ''1707.01495v3''"
proof -
  have c: "get_atom_child (get_atom_children sample_feed_tree ''entry'' ! 0) ''id'' =
      Some (Element ''{http://www.w3.org/2005/Atom}id'' Map.empty
              (Some ''http://arxiv.org/abs/1707.01495v3'') [])"
    by (simp add: sample_feed_tree_def sample_entry_def get_atom_children_def get_atom_child_def
        XML_ATOM_ROOT_def)
  show ?thesis
    using external_id_prefix_stripped [OF parse_sample_feed sample_fromstring_simps(1), of 0] c
    by (auto simp add: parse_sample_feed)
qed

section \<open>Properties of the query string\<close>

lemma formatted_params_list_eq:
  "formatted_params_list titles auths abstracts =
     map (\<lambda>t. ''ti:'' @ t) titles @ map (\<lambda>t. ''au:'' @ t) auths @ map (\<lambda>t. ''abs:'' @ t) abstracts"
  by (simp add: formatted_params_list_def search_codes_to_params_def)

lemma join_last: "xs \<noteq> [] \<Longrightarrow> \<exists>pre. join sep xs = pre @ last xs"
proof (induction sep xs rule: join.induct)
  case (3 sep x y ys)
  then obtain pre where "join sep (y # ys) = pre @ last (y # ys)" by auto
  then have "join sep (x # y # ys) = (x @ sep @ pre) @ last (x # y # ys)" by simp
  then show ?case by blast
qed auto


lemma sublist_split_last:
  assumes "c \<notin> set (butlast P)" and "sublist P (xs @ c # ys)"
  shows "sublist P (xs @ [c]) \<or> sublist P ys"
proof -
  from assms(2) obtain ps ss where eq: "xs @ c # ys = ps @ P @ ss"
    by (auto simp add: sublist_def)
  show ?thesis
  proof (cases "length ps \<le> length xs")
    case False
    then obtain us where ps: "ps = xs @ c # us"
      using eq by (auto simp add: append_eq_append_conv2 Cons_eq_append_conv)
    then have "ys = us @ P @ ss"
      using eq by simp
    then show ?thesis
      by (auto simp add: sublist_def)
  next
    case True
    then obtain us where xs: "xs = ps @ us"
      using eq by (auto simp add: append_eq_append_conv2)
    then have eq2: "us @ c # ys = P @ ss"
      using eq by simp
    show ?thesis
    proof (cases "length P \<le> length us")
      case True
      then obtain vs where "us = P @ vs"
        using eq2 by (auto simp add: append_eq_append_conv2 Cons_eq_append_conv)
      then show ?thesis
        using xs by (auto simp add: sublist_def)
    next
      case False
      then obtain vs where P: "P = us @ c # vs"
        using eq2 by (auto simp add: append_eq_append_conv2 Cons_eq_append_conv)
      have "vs = []"
      proof (rule ccontr)
        assume "vs \<noteq> []"
        then have "c \<in> set (butlast P)"
          using P by (simp add: butlast_append)
        then show False
          using assms(1) by simp
      qed
      then have "xs @ [c] = ps @ P @ []"
        using P xs by simp
      then show ?thesis
        unfolding sublist_def by blast
    qed
  qed
qed

lemma sublist_split_absent:
  assumes "c \<notin> set P" and "sublist P (xs @ c # ys)"
  shows "sublist P xs \<or> sublist P ys"
proof -
  from assms(1) have "c \<notin> set (butlast P)"
    by (auto dest: in_set_butlastD)
  from sublist_split_last [OF this assms(2)] show ?thesis
  proof
    assume "sublist P (xs @ [c])"
    then obtain ps ss where eq: "xs @ [c] = ps @ P @ ss"
      by (auto simp add: sublist_def)
    show ?thesis
    proof (cases ss rule: rev_cases)
      case Nil
      then have "P = [] \<or> last P = c"
        using eq by (metis append.right_neutral append_assoc last_appendR last_snoc)
      then have "P = []"
        using assms(1) by (auto dest: last_in_set)
      then show ?thesis
        by simp
    next
      case (snoc ss' z)
      then have "xs = ps @ P @ ss'"
        using eq by (metis append_assoc butlast_snoc)
      then show ?thesis
        by (auto simp add: sublist_def)
    qed
  qed simp
qed

lemma sublist_join:
  assumes sep: "\<And>x y. sublist P (x @ sep @ y) \<Longrightarrow> sublist P x \<or> sublist P y"
    and "P \<noteq> []"
    and "sublist P (join sep xs)"
  shows "\<exists>x\<in>set xs. sublist P x"
  using assms(3)
proof (induction xs rule: induct_list012)
  case 1
  then show ?case using assms(2) by simp
next
  case (2 x)
  then show ?case by simp
next
  case (3 x y zs)
  from 3(3) have "sublist P (x @ sep @ join sep (y # zs))"
    by simp
  from sep [OF this] 3(2) show ?case
    by auto
qed

lemma sep_AND:
  assumes "CHR ''+'' \<notin> set P" and "\<not> sublist P ''AND''"
    and "sublist P (x @ ''+AND+'' @ y)"
  shows "sublist P x \<or> sublist P y"
proof -
  from assms(3) have "sublist P (x @ CHR ''+'' # (''AND'' @ CHR ''+'' # y))"
    by simp
  from sublist_split_absent [OF assms(1) this] show ?thesis
    using sublist_split_absent [OF assms(1), of "''AND''" y] assms(2) by auto
qed

lemma sep_comma:
  assumes "CHR '','' \<notin> set P" and "sublist P (x @ '','' @ y)"
  shows "sublist P x \<or> sublist P y"
  using sublist_split_absent [OF assms(1), of x y] assms(2) by simp

lemma no_id_list_in_prefix:
  "\<not> sublist ''id_list='' (BASE_QUERY_URL @ ''search_query='')"
  by (simp add: BASE_QUERY_URL_def sublist_code)

lemma no_search_query_in_prefix:
  "\<not> sublist ''search_query='' (BASE_QUERY_URL @ ''id_list='')"
  by (simp add: BASE_QUERY_URL_def sublist_code)

lemma no_id_list_in_tokens:
  assumes "\<forall>t\<in>set (titles @ auths @ abstracts). \<not> sublist ''id_list='' t"
  shows "\<forall>tok\<in>set (formatted_params_list titles auths abstracts). \<not> sublist ''id_list='' tok"
proof -
  have tok: "\<not> sublist ''id_list='' (code @ '':'' @ t)"
    if "\<not> sublist ''id_list='' t" and "length code < 8" for code t
  proof
    assume "sublist ''id_list='' (code @ '':'' @ t)"
    then have "sublist ''id_list='' (code @ CHR '':'' # t)"
      by simp
    then have "sublist ''id_list='' code \<or> sublist ''id_list='' t"
      by (rule sublist_split_absent [rotated]) simp
    then have "sublist ''id_list='' code"
      using that(1) by simp
    then have "length ''id_list='' \<le> length code"
      by (rule sublist_length_le)
    then show False
      using that(2) by simp
  qed
  have ti: "\<not> sublist ''id_list='' (''ti:'' @ t)" if "\<not> sublist ''id_list='' t" for t
    using tok [OF that, of "''ti''"] by simp
  have au: "\<not> sublist ''id_list='' (''au:'' @ t)" if "\<not> sublist ''id_list='' t" for t
    using tok [OF that, of "''au''"] by simp
  have ab: "\<not> sublist ''id_list='' (''abs:'' @ t)" if "\<not> sublist ''id_list='' t" for t
    using tok [OF that, of "''abs''"] by simp
  show ?thesis
    using assms ti au ab unfolding formatted_params_list_eq by auto
qed

lemma sublist_trans_append:
  "sublist P y \<Longrightarrow> sublist P (x @ y @ z)"
proof -
  assume "sublist P y"
  then obtain ps ss where "y = ps @ P @ ss"
    by (auto simp add: sublist_def)
  then have "x @ y @ z = (x @ ps) @ P @ (ss @ z)"
    by simp
  then show ?thesis
    unfolding sublist_def by blast
qed

lemma sublist_join_mem:
  assumes "x \<in> set xs" and "sublist P x"
  shows "sublist P (join sep xs)"
  using assms(1)
proof (induction xs rule: induct_list012)
  case 1
  then show ?case by simp
next
  case (2 y)
  then show ?case using assms(2) by simp
next
  case (3 y z zs)
  show ?case
  proof (cases "x = y")
    case True
    then show ?thesis
      using sublist_trans_append [OF assms(2), of "[]" "sep @ join sep (z # zs)"] by simp
  next
    case False
    then have "sublist P (join sep (z # zs))"
      using 3 by simp
    then show ?thesis
      using sublist_trans_append [of P "join sep (z # zs)" "y @ sep" "[]"] by simp
  qed
qed

lemma id_list_in_tokens:
  assumes "t \<in> set (titles @ auths @ abstracts)" and "sublist ''id_list='' t"
  shows "\<exists>tok\<in>set (formatted_params_list titles auths abstracts). sublist ''id_list='' tok"
proof -
  have "sublist ''id_list='' (code @ '':'' @ t)" for code
    using sublist_trans_append [OF assms(2), of "code @ '':''" "[]"] by simp
  then have "sublist ''id_list='' (''ti:'' @ t)" "sublist ''id_list='' (''au:'' @ t)"
    "sublist ''id_list='' (''abs:'' @ t)"
    by (metis append.assoc append_Cons append_Nil)+
  then show ?thesis
    using assms(1) unfolding formatted_params_list_eq by auto
qed

text \<open>
  Claim C6 (as amended). A query with at least one title, author or abstract term
  and no id term is the base URL followed by \<open>search_query=\<close> and the tokens
  \<open>ti:term\<close>, \<open>au:term\<close>, \<open>abs:term\<close>, in this order, joined by \<open>+AND+\<close>, and
  nothing else. Terms are copied as they are, so the text \<open>id_list=\<close> occurs in the query
  exactly when one of the terms contains it.
\<close>

theorem free_text_only_query:
  assumes "titles \<noteq> [] \<or> auths \<noteq> [] \<or> abstracts \<noteq> []"
  shows "query (init_SearchQuery titles auths abstracts [] max_res start_at) =
           BASE_QUERY_URL @ ''search_query='' @
             join ''+AND+'' (map (\<lambda>t. ''ti:'' @ t) titles @ map (\<lambda>t. ''au:'' @ t) auths @
                             map (\<lambda>t. ''abs:'' @ t) abstracts)
         \<and> (sublist ''id_list=''
               (query (init_SearchQuery titles auths abstracts [] max_res start_at)) \<longleftrightarrow>
             (\<exists>t\<in>set (titles @ auths @ abstracts). sublist ''id_list='' t))"
proof (intro conjI iffI)
  let ?toks = "formatted_params_list titles auths abstracts"
  let ?q = "query (init_SearchQuery titles auths abstracts [] max_res start_at)"
  have q: "?q = BASE_QUERY_URL @ ''search_query='' @ join ''+AND+'' ?toks"
    using assms
    by (auto simp add: init_SearchQuery_def combine_params_def formatted_params_fragment_def
        id_args_fragment_def formatted_params_list_eq Let_def)
  then show "?q = BASE_QUERY_URL @ ''search_query='' @
      join ''+AND+'' (map (\<lambda>t. ''ti:'' @ t) titles @ map (\<lambda>t. ''au:'' @ t) auths @
                      map (\<lambda>t. ''abs:'' @ t) abstracts)"
    by (simp add: formatted_params_list_eq)
  show "\<exists>t\<in>set (titles @ auths @ abstracts). sublist ''id_list='' t"
    if occ: "sublist ''id_list='' ?q"
  proof (rule ccontr)
    assume "\<not> (\<exists>t\<in>set (titles @ auths @ abstracts). sublist ''id_list='' t)"
    then have terms: "\<forall>t\<in>set (titles @ auths @ abstracts). \<not> sublist ''id_list='' t"
      by blast
    from occ have "sublist ''id_list=''
        ((BASE_QUERY_URL @ ''search_query'') @ CHR ''='' # join ''+AND+'' ?toks)"
      using q by simp
    then have "sublist ''id_list='' ((BASE_QUERY_URL @ ''search_query'') @ ''='')
        \<or> sublist ''id_list='' (join ''+AND+'' ?toks)"
      by (rule sublist_split_last [rotated]) simp
    then have "sublist ''id_list='' (join ''+AND+'' ?toks)"
      using no_id_list_in_prefix by simp
    then have "\<exists>tok\<in>set ?toks. sublist ''id_list='' tok"
    proof (rule sublist_join [rotated 2])
      fix x y
      assume "sublist ''id_list='' (x @ ''+AND+'' @ y)"
      then show "sublist ''id_list='' x \<or> sublist ''id_list='' y"
        by (rule sep_AND [rotated 2]) (auto dest: sublist_length_le)
    qed simp
    then show False
      using no_id_list_in_tokens [OF terms] by blast
  qed
  show "sublist ''id_list='' ?q"
    if "\<exists>t\<in>set (titles @ auths @ abstracts). sublist ''id_list='' t"
  proof -
    from that id_list_in_tokens obtain tok where "tok \<in> set ?toks" "sublist ''id_list='' tok"
      by blast
    then have "sublist ''id_list='' (join ''+AND+'' ?toks)"
      by (rule sublist_join_mem)
    then show ?thesis
      using sublist_trans_append [of "''id_list=''" "join ''+AND+'' ?toks"
          "BASE_QUERY_URL @ ''search_query=''" "[]"] q
      by simp
  qed
qed

theorem free_text_only_query_witness:
  "query (init_SearchQuery [''deep'', ''replay''] [''sutton''] [''reward''] [] 10 0) =
     ''http://export.arxiv.org/api/query/?search_query=ti:deep+AND+ti:replay+AND+au:sutton+AND+abs:reward''
   \<and> \<not> sublist ''id_list=''
         (query (init_SearchQuery [''deep'', ''replay''] [''sutton''] [''reward''] [] 10 0))"
  using free_text_only_query [of "[''deep'', ''replay'']" "[''sutton'']" "[''reward'']" 10 0]
  by (simp add: BASE_QUERY_URL_def sublist_code)

text \<open>
  The claim as stated fails for the title term \<open>id_list=1\<close>: the query has no id-list
  fragment, yet it contains the text \<open>id_list=\<close>.
\<close>

theorem free_text_term_carries_id_list:
  "query (init_SearchQuery [''id_list=1''] [] [] [] 10 0) =
     ''http://export.arxiv.org/api/query/?search_query=ti:id_list=1''
   \<and> sublist ''id_list='' (query (init_SearchQuery [''id_list=1''] [] [] [] 10 0))"
  by (simp add: init_SearchQuery_def combine_params_def formatted_params_fragment_def
      id_args_fragment_def formatted_params_list_def search_codes_to_params_def
      BASE_QUERY_URL_def sublist_code)

text \<open>
  Claim C7 (as amended). A query with id terms and no title, author or abstract term
  is the base URL followed by \<open>id_list=\<close> and the ids joined by commas, and nothing else.
  Ids are copied as they are, so the text \<open>search_query=\<close> occurs in the query exactly
  when one of the ids contains it.
\<close>

theorem id_only_query:
  assumes "ids \<noteq> []"
  shows "query (init_SearchQuery [] [] [] ids max_res start_at) =
           BASE_QUERY_URL @ ''id_list='' @ join '','' ids
         \<and> (sublist ''search_query='' (query (init_SearchQuery [] [] [] ids max_res start_at)) \<longleftrightarrow>
             (\<exists>i\<in>set ids. sublist ''search_query='' i))"
proof (intro conjI iffI)
  let ?q = "query (init_SearchQuery [] [] [] ids max_res start_at)"
  show q: "?q = BASE_QUERY_URL @ ''id_list='' @ join '','' ids"
    using assms
    by (auto simp add: init_SearchQuery_def combine_params_def formatted_params_fragment_def
        id_args_fragment_def formatted_params_list_eq Let_def)
  show "\<exists>i\<in>set ids. sublist ''search_query='' i" if occ: "sublist ''search_query='' ?q"
  proof -
    from occ have "sublist ''search_query=''
        ((BASE_QUERY_URL @ ''id_list'') @ CHR ''='' # join '','' ids)"
      using q by simp
    then have "sublist ''search_query='' ((BASE_QUERY_URL @ ''id_list'') @ ''='')
        \<or> sublist ''search_query='' (join '','' ids)"
      by (rule sublist_split_last [rotated]) simp
    then have "sublist ''search_query='' (join '','' ids)"
      using no_search_query_in_prefix by simp
    then show ?thesis
    proof (rule sublist_join [rotated 2])
      fix x y
      assume "sublist ''search_query='' (x @ '','' @ y)"
      then show "sublist ''search_query='' x \<or> sublist ''search_query='' y"
        by (rule sep_comma [rotated]) simp
    qed simp
  qed
  show "sublist ''search_query='' ?q" if "\<exists>i\<in>set ids. sublist ''search_query='' i"
  proof -
    from that obtain i where "i \<in> set ids" "sublist ''search_query='' i"
      by blast
    then have "sublist ''search_query='' (join '','' ids)"
      by (rule sublist_join_mem)
    then show ?thesis
      using sublist_trans_append [of "''search_query=''" "join '','' ids"
          "BASE_QUERY_URL @ ''id_list=''" "[]"] q
      by simp
  qed
qed

theorem id_only_query_witness:
  "query (init_SearchQuery [] [] [] [''1707.01495'', ''cs/0001001''] 10 0) =
     ''http://export.arxiv.org/api/query/?id_list=1707.01495,cs/0001001''
   \<and> \<not> sublist ''search_query=''
         (query (init_SearchQuery [] [] [] [''1707.01495'', ''cs/0001001''] 10 0))"
  using id_only_query [of "[''1707.01495'', ''cs/0001001'']" 10 0]
  by (simp add: BASE_QUERY_URL_def sublist_code)

text \<open>
  The claim as stated fails for the ids \<open>1707.01495\<close> and \<open>search_query=x\<close>: the
  query has no free-text fragment, yet it contains the text \<open>search_query=\<close>.
\<close>

theorem id_term_carries_search_query:
  "query (init_SearchQuery [] [] [] [''1707.01495'', ''search_query=x''] 10 0) =
     ''http://export.arxiv.org/api/query/?id_list=1707.01495,search_query=x''
   \<and> sublist ''search_query=''
       (query (init_SearchQuery [] [] [] [''1707.01495'', ''search_query=x''] 10 0))"
  by (simp add: init_SearchQuery_def combine_params_def formatted_params_fragment_def
      id_args_fragment_def formatted_params_list_def search_codes_to_params_def
      BASE_QUERY_URL_def sublist_code)

text \<open>
  Claim C9. A query with at least one free-text term and at least one id term is the
  base URL, the \<open>search_query=\<close> fragment and the \<open>id_list=\<close> fragment with nothing in
  between: \<open>id_list=\<close> directly follows the last free-text token.
\<close>

theorem mixed_query_abuts:
  assumes "titles \<noteq> [] \<or> auths \<noteq> [] \<or> abstracts \<noteq> []" and "ids \<noteq> []"
  shows "query (init_SearchQuery titles auths abstracts ids max_res start_at) =
           BASE_QUERY_URL @ ''search_query='' @
             join ''+AND+'' (formatted_params_list titles auths abstracts) @
             ''id_list='' @ join '','' ids
         \<and> (\<exists>pre. query (init_SearchQuery titles auths abstracts ids max_res start_at) =
               pre @ last (formatted_params_list titles auths abstracts) @
               ''id_list='' @ join '','' ids)"
proof -
  let ?toks = "formatted_params_list titles auths abstracts"
  let ?q = "query (init_SearchQuery titles auths abstracts ids max_res start_at)"
  have ne: "?toks \<noteq> []"
    using assms(1) by (auto simp add: formatted_params_list_eq)
  have q: "?q = BASE_QUERY_URL @ ''search_query='' @ join ''+AND+'' ?toks @
                ''id_list='' @ join '','' ids"
    using ne assms(2)
    by (simp add: init_SearchQuery_def combine_params_def formatted_params_fragment_def
        id_args_fragment_def Let_def)
  from join_last [OF ne] obtain pre where "join ''+AND+'' ?toks = pre @ last ?toks"
    by blast
  then have "?q = (BASE_QUERY_URL @ ''search_query='' @ pre) @ last ?toks @
                  ''id_list='' @ join '','' ids"
    using q by simp
  then have "\<exists>pre. ?q = pre @ last ?toks @ ''id_list='' @ join '','' ids"
    by blast
  then show ?thesis using q by blast
qed

theorem mixed_query_abuts_witness:
  "query (init_SearchQuery [''replay''] [] [] [''1707.01495''] 10 0) =
     ''http://export.arxiv.org/api/query/?search_query=ti:replayid_list=1707.01495''"
  using mixed_query_abuts [of "[''replay'']" "[]" "[]" "[''1707.01495'']" 10 0]
  by (simp add: BASE_QUERY_URL_def formatted_params_list_eq)

section \<open>Properties of the retrieval\<close>

lemma fetch_page_world:
  "self_obj (snd (fetch_page http fromstring s sp e c w)) = self_obj w \<and>
   requests (snd (fetch_page http fromstring s sp e c w)) =
     requests w @ [limited_url (self_obj w) s sp] \<and>
   fst (fst (fetch_page http fromstring s sp e c w)) \<noteq> StopIteration"
  by (simp add: fetch_page_def get_response_with_limited_query_def Let_def
      split: sum.splits)

lemma fetch_page_ok:
  assumes "http (length (requests w)) (limited_url (self_obj w) s sp) = Inr p"
    and "parse_valid_response fromstring (resp_text p) = Inr rs"
  shows "fetch_page http fromstring s sp e c w =
           ((Yield (List.enumerate 0 rs), Suspended s sp e (c + length rs)),
            w\<lparr>requests := requests w @ [limited_url (self_obj w) s sp]\<rparr>)"
  using assms by (simp add: fetch_page_def get_response_with_limited_query_def Let_def)

lemma next_batch_self: "self_obj (snd (next_batch http fromstring g w)) = self_obj w"
  by (cases g) (simp_all add: fetch_page_world Let_def)

lemma consume_self: "self_obj (snd (consume fuel http fromstring g w)) = self_obj w"
proof (induction fuel arbitrary: g w)
  case 0
  then show ?case by simp
next
  case (Suc fuel)
  obtain out g' w' where nb: "next_batch http fromstring g w = ((out, g'), w')"
    by (metis surj_pair)
  then have w': "self_obj w' = self_obj w"
    using next_batch_self [of http fromstring g w] by simp
  show ?case
  proof (cases out)
    case (Yield batch)
    obtain bs e w'' where c: "consume fuel http fromstring g' w' = ((bs, e), w'')"
      by (metis surj_pair)
    then have "self_obj w'' = self_obj w'"
      using Suc.IH [of g' w'] by simp
    then show ?thesis using nb Yield c w' by simp
  next
    case StopIteration
    then show ?thesis using nb w' by simp
  next
    case (Raise err)
    then show ?thesis using nb w' by simp
  qed
qed

lemma retrieve_search_results_self:
  "self_obj (snd (retrieve_search_results http fromstring py_int w)) = self_obj w"
  by (simp add: retrieve_search_results_def get_response_with_starting_query_def
      get_response_with_limited_query_def Let_def split: sum.splits)

text \<open>
  Claim C10. The retrieval, each pull on the generator and any number of pulls
  leave the \<open>SearchQuery\<close> object as it was; the request of a pull is built from the
  query string of the object and the cursor held by the generator.
\<close>

theorem retrieval_leaves_query_unchanged:
  "self_obj (snd (retrieve_search_results http fromstring py_int w)) = self_obj w \<and>
   self_obj (snd (next_batch http fromstring g w)) = self_obj w \<and>
   self_obj (snd (consume fuel http fromstring g w)) = self_obj w \<and>
   requests (snd (next_batch http fromstring (Created cursor space end_at) w)) =
     requests w @
       [query (self_obj w) @ ''&start='' @ str_int cursor @ ''&max_result='' @ str_int space]"
  using fetch_page_world [of http fromstring cursor space end_at 0 w]
  by (simp add: retrieve_search_results_self next_batch_self consume_self limited_url_def)

text \<open>
  Claim C3. When the first request is answered with an error status and a well-formed
  envelope whose first entry has a summary with text, \<open>retrieve_search_results\<close> returns
  that text as a message, not a generator of batches, and has issued that one request
  only.
\<close>

theorem error_envelope_surfaced:
  assumes "http (length (requests w))
             (limited_url (self_obj w) (start (self_obj w)) (max_result (self_obj w))) = Inr resp"
    and "\<not> ok resp"
    and "fromstring (resp_text resp) = Some root"
    and "get_atom_child root ''entry'' = Some entry"
    and "get_atom_child entry ''summary'' = Some summ"
    and "elem_text summ = Some msg"
  shows "retrieve_search_results http fromstring py_int w =
           (Inr (Message (Some msg)),
            w\<lparr>requests := requests w @
                 [limited_url (self_obj w) (start (self_obj w)) (max_result (self_obj w))]\<rparr>)"
  using assms
  by (simp add: retrieve_search_results_def get_response_with_starting_query_def
      get_response_with_limited_query_def parse_error_def Let_def)

theorem error_envelope_surfaced_witness:
  "retrieve_search_results sample_failing_service sample_fromstring sample_int sample_world =
     (Inr (Message (Some ''Invalid id list'')),
      sample_world\<lparr>requests :=
        [''http://export.arxiv.org/api/query/?search_query=ti:replay&start=0&max_result=10'']\<rparr>)"
proof -
  have url: "limited_url (self_obj sample_world) (start (self_obj sample_world))
               (max_result (self_obj sample_world)) =
             ''http://export.arxiv.org/api/query/?search_query=ti:replay&start=0&max_result=10''"
    by (simp add: sample_world_def init_SearchQuery_def limited_url_def str_int_def
        digit_char_def BASE_QUERY_URL_def combine_params_def formatted_params_fragment_def
        formatted_params_list_def search_codes_to_params_def id_args_fragment_def)
  have "requests sample_world = []"
    by (simp add: sample_world_def)
  then show ?thesis
    using error_envelope_surfaced [of sample_failing_service sample_world
        "\<lparr> ok = False, resp_text = sample_error \<rparr>" sample_fromstring sample_error_tree
        "Element ''{http://www.w3.org/2005/Atom}entry'' Map.empty None
          [Element ''{http://www.w3.org/2005/Atom}id'' Map.empty
             (Some ''http://arxiv.org/api/errors'') [],
           Element ''{http://www.w3.org/2005/Atom}title'' Map.empty (Some ''Error'') [],
           Element ''{http://www.w3.org/2005/Atom}summary'' Map.empty
             (Some ''Invalid id list'') []]"
        "Element ''{http://www.w3.org/2005/Atom}summary'' Map.empty (Some ''Invalid id list'') []"
        "''Invalid id list''" sample_int]
    by (simp add: url sample_failing_service_def sample_fromstring_simps sample_error_tree_def
        get_atom_child_def XML_ATOM_ROOT_def)
qed

lemma next_batch_Suspended:
  "(start_at + space > end_at \<longrightarrow>
      next_batch http fromstring (Suspended start_at space end_at count) w =
        ((StopIteration, Finished), w)) \<and>
   (start_at + space \<le> end_at \<longrightarrow>
      fst (fst (next_batch http fromstring (Suspended start_at space end_at count) w))
        \<noteq> StopIteration \<and>
      requests (snd (next_batch http fromstring (Suspended start_at space end_at count) w)) =
        requests w @ [limited_url (self_obj w) (start_at + space) space])"
  by (simp add: Let_def fetch_page_world)

text \<open>
  Claim C1. When the first request is answered with a success status and a body whose
  \<open>totalResults\<close> element reads 25, the window starts at 0 with 10 results per page, and
  each of the three page requests is answered with a body that parses, the retrieval makes
  the generator and consuming it (with any fuel of at least 4 pulls) yields exactly three
  batches and then stops: the requests issued are the first one at cursor 0 and the pages at
  cursors 0, 10 and 20. In general a resumed generator stops exactly when the advanced cursor
  is strictly greater than the total; when it is smaller or equal (the boundary page
  included) it issues the request at that cursor.
\<close>

theorem three_pages_for_25_results:
  assumes "start (self_obj w) = 0" and "max_result (self_obj w) = 10"
    and "http (length (requests w)) (limited_url (self_obj w) 0 10) = Inr resp"
    and "ok resp"
    and "fromstring (resp_text resp) = Some root"
    and "get_open_search_child root ''totalResults'' = Some el"
    and "elem_text el = Some txt"
    and "py_int txt = Some 25"
    and pages: "\<forall>k<3. \<exists>page. http (length (requests w) + 1 + k)
                         (limited_url (self_obj w) (10 * int k) 10) = Inr page \<and>
                       parse_valid_response fromstring (resp_text page) = Inr (results k)"
  shows "(\<exists>g w1. retrieve_search_results http fromstring py_int w = (Inr (Generator g), w1) \<and>
            (\<forall>fuel\<ge>4. consume fuel http fromstring g w1 =
               (([List.enumerate 0 (results 0), List.enumerate 0 (results 1),
                  List.enumerate 0 (results 2)], Exhausted),
                w\<lparr>requests := requests w @
                     [limited_url (self_obj w) 0 10, limited_url (self_obj w) 0 10,
                      limited_url (self_obj w) 10 10, limited_url (self_obj w) 20 10]\<rparr>))) \<and>
         (\<forall>cursor space total_known count w'.
            (cursor + space > total_known \<longrightarrow>
               next_batch http fromstring (Suspended cursor space total_known count) w' =
                 ((StopIteration, Finished), w')) \<and>
            (cursor + space \<le> total_known \<longrightarrow>
               fst (fst (next_batch http fromstring (Suspended cursor space total_known count) w'))
                 \<noteq> StopIteration \<and>
               requests (snd (next_batch http fromstring (Suspended cursor space total_known count) w')) =
                 requests w' @ [limited_url (self_obj w') (cursor + space) space]))"
proof -
  let ?q = "self_obj w"
  let ?u0 = "limited_url ?q 0 10"
  let ?u1 = "limited_url ?q 10 10"
  let ?u2 = "limited_url ?q 20 10"
  let ?w1 = "w\<lparr>requests := requests w @ [?u0]\<rparr>"
  let ?w2 = "w\<lparr>requests := requests w @ [?u0, ?u0]\<rparr>"
  let ?w3 = "w\<lparr>requests := requests w @ [?u0, ?u0, ?u1]\<rparr>"
  let ?w4 = "w\<lparr>requests := requests w @ [?u0, ?u0, ?u1, ?u2]\<rparr>"
  let ?g0 = "Created 0 10 25"
  let ?g1 = "Suspended 0 10 25 (0 + length (results 0))"
  let ?g2 = "Suspended 10 10 25 (0 + length (results 0) + length (results 1))"
  let ?g3 = "Suspended 20 10 25
               (0 + length (results 0) + length (results 1) + length (results 2))"
  have created: "retrieve_search_results http fromstring py_int w =
      (Inr (Generator ?g0), ?w1)"
    using assms(1-8)
    by (simp add: retrieve_search_results_def get_response_with_starting_query_def
        get_response_with_limited_query_def get_xml_tree_def total_results_of_def Let_def)
  from pages obtain p0 where "http (length (requests w) + 1 + 0) (limited_url ?q (10 * int 0) 10) = Inr p0"
    and r0: "parse_valid_response fromstring (resp_text p0) = Inr (results 0)"
    by (metis zero_less_numeral)
  then have p0: "http (Suc (length (requests w))) ?u0 = Inr p0"
    by simp
  from pages obtain p1 where "http (length (requests w) + 1 + 1) (limited_url ?q (10 * int 1) 10) = Inr p1"
    and r1: "parse_valid_response fromstring (resp_text p1) = Inr (results 1)"
    by (metis one_less_numeral_iff semiring_norm(77))
  then have p1: "http (Suc (Suc (length (requests w)))) ?u1 = Inr p1"
    by simp
  have "(2::nat) < 3"
    by simp
  with pages obtain p2 where "http (length (requests w) + 1 + 2) (limited_url ?q (10 * int 2) 10) = Inr p2"
    and r2: "parse_valid_response fromstring (resp_text p2) = Inr (results 2)"
    by blast
  then have p2: "http (Suc (Suc (Suc (length (requests w))))) ?u2 = Inr p2"
    by (simp add: numeral_2_eq_2)
  have n1: "next_batch http fromstring ?g0 ?w1 = ((Yield (List.enumerate 0 (results 0)), ?g1), ?w2)"
    using fetch_page_ok [of http ?w1 0 10 p0 fromstring "results 0" 25 0] p0 r0 by simp
  have n2: "next_batch http fromstring ?g1 ?w2 = ((Yield (List.enumerate 0 (results 1)), ?g2), ?w3)"
    using fetch_page_ok [of http ?w2 10 10 p1 fromstring "results 1" 25 "0 + length (results 0)"]
      p1 r1
    by (simp add: Let_def)
  have n3: "next_batch http fromstring ?g2 ?w3 = ((Yield (List.enumerate 0 (results 2)), ?g3), ?w4)"
    using fetch_page_ok [of http ?w3 20 10 p2 fromstring "results 2" 25
        "0 + length (results 0) + length (results 1)"] p2 r2
    by (simp add: Let_def)
  have n4: "next_batch http fromstring ?g3 ?w4 = ((StopIteration, Finished), ?w4)"
    by (simp add: Let_def)
  have run: "consume fuel http fromstring ?g0 ?w1 =
      (([List.enumerate 0 (results 0), List.enumerate 0 (results 1),
         List.enumerate 0 (results 2)], Exhausted), ?w4)" if "4 \<le> fuel" for fuel
  proof -
    from that have "fuel = Suc (Suc (Suc (Suc (fuel - 4))))"
      by simp
    then obtain k where k: "fuel = Suc (Suc (Suc (Suc k)))" ..
    show ?thesis
      unfolding k by (simp only: consume.simps n1 n2 n3 n4 prod.case pull.case)
  qed
  have first_part: "\<exists>g w1. retrieve_search_results http fromstring py_int w =
        (Inr (Generator g), w1) \<and>
      (\<forall>fuel\<ge>4. consume fuel http fromstring g w1 =
         (([List.enumerate 0 (results 0), List.enumerate 0 (results 1),
            List.enumerate 0 (results 2)], Exhausted), ?w4))"
  proof (intro exI conjI allI impI)
    show "retrieve_search_results http fromstring py_int w = (Inr (Generator ?g0), ?w1)"
      by (rule created)
  next
    fix fuel :: nat
    assume "4 \<le> fuel"
    then show "consume fuel http fromstring ?g0 ?w1 =
      (([List.enumerate 0 (results 0), List.enumerate 0 (results 1),
         List.enumerate 0 (results 2)], Exhausted), ?w4)"
      by (rule run)
  qed
  show ?thesis
  proof (rule conjI)
    show "\<exists>g w1. retrieve_search_results http fromstring py_int w =
        (Inr (Generator g), w1) \<and>
      (\<forall>fuel\<ge>4. consume fuel http fromstring g w1 =
         (([List.enumerate 0 (results 0), List.enumerate 0 (results 1),
            List.enumerate 0 (results 2)], Exhausted), ?w4))"
      by (rule first_part)
  next
    show "\<forall>cursor space total_known count w'.
            (cursor + space > total_known \<longrightarrow>
               next_batch http fromstring (Suspended cursor space total_known count) w' =
                 ((StopIteration, Finished), w')) \<and>
            (cursor + space \<le> total_known \<longrightarrow>
               fst (fst (next_batch http fromstring (Suspended cursor space total_known count) w'))
                 \<noteq> StopIteration \<and>
               requests (snd (next_batch http fromstring (Suspended cursor space total_known count) w')) =
                 requests w' @ [limited_url (self_obj w') (cursor + space) space])"
      by (intro allI) (rule next_batch_Suspended)
  qed
qed

lemma sample_urls:
  "limited_url (self_obj sample_world) 0 10 =
     ''http://export.arxiv.org/api/query/?search_query=ti:replay&start=0&max_result=10''"
  "limited_url (self_obj sample_world) 10 10 =
     ''http://export.arxiv.org/api/query/?search_query=ti:replay&start=10&max_result=10''"
  "limited_url (self_obj sample_world) 20 10 =
     ''http://export.arxiv.org/api/query/?search_query=ti:replay&start=20&max_result=10''"
  by (simp_all add: sample_world_def init_SearchQuery_def limited_url_def str_int_def
      digit_char_def BASE_QUERY_URL_def combine_params_def formatted_params_fragment_def
      formatted_params_list_def search_codes_to_params_def id_args_fragment_def)

theorem three_pages_for_25_results_witness:
  "\<exists>g w1. retrieve_search_results sample_service sample_fromstring sample_int sample_world =
            (Inr (Generator g), w1) \<and>
          consume 4 sample_service sample_fromstring g w1 =
            (([[(0, sample_result)], [(0, sample_result)], [(0, sample_result)]], Exhausted),
             sample_world\<lparr>requests :=
               [''http://export.arxiv.org/api/query/?search_query=ti:replay&start=0&max_result=10'',
                ''http://export.arxiv.org/api/query/?search_query=ti:replay&start=0&max_result=10'',
                ''http://export.arxiv.org/api/query/?search_query=ti:replay&start=10&max_result=10'',
                ''http://export.arxiv.org/api/query/?search_query=ti:replay&start=20&max_result=10'']\<rparr>)"
proof -
  let ?resp = "\<lparr> ok = True, resp_text = sample_feed \<rparr>"
  let ?el = "Element ''{http://a9.com/-/spec/opensearch/1.1/}totalResults'' Map.empty
               (Some ''25'') []"
  have h1: "start (self_obj sample_world) = 0" and h2: "max_result (self_obj sample_world) = 10"
    and h0: "requests sample_world = []"
    by (simp_all add: sample_world_def init_SearchQuery_def)
  have h3: "sample_service (length (requests sample_world))
              (limited_url (self_obj sample_world) 0 10) = Inr ?resp"
    by (simp add: sample_service_def)
  have h4: "ok ?resp" and h5: "sample_fromstring (resp_text ?resp) = Some sample_feed_tree"
    by (simp_all add: sample_fromstring_simps)
  have h6: "get_open_search_child sample_feed_tree ''totalResults'' = Some ?el"
    by (simp add: get_open_search_child_def sample_feed_tree_def XML_OPEN_SEARCH_ROOT_def)
  have h7: "elem_text ?el = Some ''25''" and h8: "sample_int ''25'' = Some 25"
    by (simp_all add: sample_int_def)
  have h9: "\<forall>k<3. \<exists>page. sample_service (length (requests sample_world) + 1 + k)
                (limited_url (self_obj sample_world) (10 * int k) 10) = Inr page \<and>
              parse_valid_response sample_fromstring (resp_text page) = Inr [sample_result]"
    by (simp add: sample_service_def parse_sample_feed)
  have "4 \<le> (4::nat)"
    by simp
  with three_pages_for_25_results [of sample_world sample_service ?resp sample_fromstring
      sample_feed_tree ?el "''25''" sample_int "\<lambda>k. [sample_result]", OF h1 h2 h3 h4 h5 h6 h7 h8 h9]
  show ?thesis
    unfolding sample_urls h0 by (auto simp add: enumerate_eq_zip)
qed

end
